theory Spec2Isabelle
  imports Complex_Main
begin

section \<open>Errors and random draws\<close>

text \<open>
  The Python exceptions the modelled code can raise. \<open>DrawsExhausted\<close> is not a Python
  exception: the random generators are modelled as finite lists of draws handed to the
  code, and a retry loop that has used up its list without leaving the loop ends with
  \<open>DrawsExhausted\<close> (the loop is still running).
\<close>

datatype error = TypeError | AttributeError | IndexError | KeyError | ValueError
  | AssertionError | ZeroDivisionError | NetworkXError | DrawsExhausted

text \<open>
  One random generator (Python's \<open>random\<close> module or numpy's global generator): the
  values its \<open>random()\<close> calls return, in order, and the positions its \<open>choice\<close> calls
  pick, in order.
\<close>

record rng =
  floats :: "real list"
  picks :: "nat list"

text \<open>\<open>choice(xs)\<close> with the drawn position \<open>c\<close>; called on non-empty lists only.\<close>

definition choice :: "'a list \<Rightarrow> nat \<Rightarrow> 'a" where
  "choice xs c = xs ! (c mod length xs)"

section \<open>create\_network.py\<close>

subsection \<open>The networkx graph\<close>

text \<open>
  An undirected \<open>nx.Graph\<close>: the nodes in insertion order and the edges, each stored
  once. Adding an edge adds its endpoints as nodes; removing an absent edge raises.
\<close>

record graph =
  nodes :: "int list"
  edges :: "(int \<times> int) list"

definition Graph :: graph where
  "Graph = \<lparr>nodes = [], edges = []\<rparr>"

definition has_edge :: "graph \<Rightarrow> int \<Rightarrow> int \<Rightarrow> bool" where
  "has_edge G u v = ((u, v) \<in> set (edges G) \<or> (v, u) \<in> set (edges G))"

definition add_node :: "graph \<Rightarrow> int \<Rightarrow> graph" where
  "add_node G v = (if v \<in> set (nodes G) then G else G\<lparr>nodes := nodes G @ [v]\<rparr>)"

definition add_edge :: "graph \<Rightarrow> int \<Rightarrow> int \<Rightarrow> graph" where
  "add_edge G u v =
     (let G1 = add_node (add_node G u) v
      in if has_edge G1 u v then G1 else G1\<lparr>edges := edges G1 @ [(u, v)]\<rparr>)"

definition add_edges_from :: "graph \<Rightarrow> (int \<times> int) list \<Rightarrow> graph" where
  "add_edges_from G es = foldl (\<lambda>H (u, v). add_edge H u v) G es"

definition add_nodes_from :: "graph \<Rightarrow> int list \<Rightarrow> graph" where
  "add_nodes_from G vs = foldl add_node G vs"

definition remove_edge :: "graph \<Rightarrow> int \<Rightarrow> int \<Rightarrow> error + graph" where
  "remove_edge G u v =
     (if has_edge G u v
      then Inr (G\<lparr>edges := filter (\<lambda>e. e \<noteq> (u, v) \<and> e \<noteq> (v, u)) (edges G)\<rparr>)
      else Inl NetworkXError)"

text \<open>The degree counts an edge once per endpoint equal to the node (a self-loop twice).\<close>

definition degree :: "graph \<Rightarrow> int \<Rightarrow> int" where
  "degree G u =
     int (length (filter (\<lambda>e. fst e = u) (edges G)) + length (filter (\<lambda>e. snd e = u) (edges G)))"

definition neighbors :: "graph \<Rightarrow> int \<Rightarrow> int list" where
  "neighbors G u =
     concat (map (\<lambda>e. if fst e = u then [snd e] else if snd e = u then [fst e] else [])
       (edges G))"

text \<open>\<open>nx.relabel_nodes(G, mapping)\<close> for a mapping given as the list of pairs of \<open>zip\<close>.\<close>

definition relabel :: "(int \<times> int) list \<Rightarrow> int \<Rightarrow> int" where
  "relabel mapping v = (case map_of mapping v of None \<Rightarrow> v | Some v' \<Rightarrow> v')"

definition relabel_nodes :: "graph \<Rightarrow> (int \<times> int) list \<Rightarrow> graph" where
  "relabel_nodes G mapping =
     \<lparr>nodes = map (relabel mapping) (nodes G),
      edges = map (\<lambda>(u, v). (relabel mapping u, relabel mapping v)) (edges G)\<rparr>"

subsection \<open>Links between the groups\<close>

text \<open>Python's slice \<open>xs[:k]\<close>, where a negative \<open>k\<close> counts from the end.\<close>

definition py_prefix :: "int \<Rightarrow> 'a list \<Rightarrow> 'a list" where
  "py_prefix k xs = (if 0 \<le> k then take (nat k) xs else take (nat (int (length xs) + k)) xs)"

definition which_betweengroup_nodes_to_connect :: "int \<Rightarrow> int list" where
  "which_betweengroup_nodes_to_connect k_out = py_prefix k_out [0, 1, -1, 2, -2, 3, -3, 4, -4]"

text \<open>
  The endpoint in group 2 for the node \<open>edgefrom\<close> and the offset \<open>i\<close>; \<open>g\<close> is
  \<open>len(G1.nodes)\<close>.
\<close>

definition edgeto_of :: "int \<Rightarrow> int \<Rightarrow> int \<Rightarrow> int \<Rightarrow> int" where
  "edgeto_of n g edgefrom i =
     (let e0 = edgefrom + g + i;
          e1 = (if e0 \<ge> n then e0 - g else e0);
          e2 = (if e1 < g then e1 + g else e1)
      in e2)"

subsection \<open>Rewiring inside a group\<close>

text \<open>
  The retry loop of a rewiring (\<open>while w == u or G.has_edge(u, w)\<close>), entered with the
  first candidate \<open>w\<close>: each pass draws a new candidate and then leaves with \<open>break\<close>
  when the degree of \<open>u\<close> is at least \<open>n - 1\<close>. \<open>Rewire w\<close>: the loop condition became
  false and the \<open>else\<close> branch of the loop runs with \<open>w\<close>; \<open>Skip\<close>: the loop was left
  with \<open>break\<close>.
\<close>

datatype rewiring = Rewire int | Skip

fun retry_target ::
  "graph \<Rightarrow> int \<Rightarrow> int \<Rightarrow> int list \<Rightarrow> int \<Rightarrow> nat list \<Rightarrow> error + rewiring \<times> nat list" where
  "retry_target G u n nds w [] =
     (if w = u \<or> has_edge G u w then Inl DrawsExhausted else Inr (Rewire w, []))"
| "retry_target G u n nds w (c # cs) =
     (if w = u \<or> has_edge G u w
      then (if degree G u \<ge> n - 1 then Inr (Skip, cs)
            else retry_target G u n nds (choice nds c) cs)
      else Inr (Rewire w, c # cs))"

text \<open>
  One rewiring of the edge \<open>(u, v)\<close>: the first candidate, the retry loop and the
  \<open>else\<close> branch of the loop, which replaces \<open>(u, v)\<close> by \<open>(u, w)\<close>.
\<close>

definition rewire_edge ::
  "graph \<Rightarrow> int \<Rightarrow> int \<Rightarrow> int \<Rightarrow> int list \<Rightarrow> nat list \<Rightarrow> error + graph \<times> nat list" where
  "rewire_edge G u v n nds cs =
     (case cs of
        [] \<Rightarrow> Inl DrawsExhausted
      | c # cs1 \<Rightarrow>
          (case retry_target G u n nds (choice nds c) cs1 of
             Inl e \<Rightarrow> Inl e
           | Inr (Skip, cs2) \<Rightarrow> Inr (G, cs2)
           | Inr (Rewire w, cs2) \<Rightarrow>
               (case remove_edge G u v of
                  Inl e \<Rightarrow> Inl e
                | Inr G1 \<Rightarrow> Inr (add_edge G1 u w, cs2))))"

text \<open>
  The part between NEW and END NEW, for the nodes still to visit: \<open>rs\<close> and \<open>cs\<close> are
  the values and positions the \<open>random\<close> module draws, \<open>qs\<close> the values of numpy's
  \<open>random()\<close>.
\<close>

fun odd_pass ::
  "int \<Rightarrow> int \<Rightarrow> real \<Rightarrow> int list \<Rightarrow> int list \<Rightarrow> graph \<Rightarrow> real list \<Rightarrow> nat list \<Rightarrow> real list
     \<Rightarrow> error + graph \<times> real list \<times> nat list \<times> real list" where
  "odd_pass n k p nds [] G rs cs qs = Inr (G, rs, cs, qs)"
| "odd_pass n k p nds (m # ms) G [] cs qs = Inl DrawsExhausted"
| "odd_pass n k p nds (m # ms) G (r # rs) cs qs =
     (if r < 0.5
      then
        (let oddtarget = nds ! nat ((m + k div 2 + 1) mod n);
             G1 = add_edge G m oddtarget
         in case qs of
              [] \<Rightarrow> Inl DrawsExhausted
            | q # qs1 \<Rightarrow>
                if q < p
                then (case rewire_edge G1 m oddtarget n nds cs of
                        Inl e \<Rightarrow> Inl e
                      | Inr (G2, cs1) \<Rightarrow> odd_pass n k p nds ms G2 rs cs1 qs1)
                else odd_pass n k p nds ms G1 rs cs qs1)
      else odd_pass n k p nds ms G rs cs qs)"

text \<open>The rewiring pass: the inner loop over the pairs of one ring, the outer over \<open>j\<close>.\<close>

fun rewire_pairs ::
  "int \<Rightarrow> real \<Rightarrow> int list \<Rightarrow> (int \<times> int) list \<Rightarrow> graph \<Rightarrow> real list \<Rightarrow> nat list
     \<Rightarrow> error + graph \<times> real list \<times> nat list" where
  "rewire_pairs n p nds [] G rs cs = Inr (G, rs, cs)"
| "rewire_pairs n p nds ((u, v) # uvs) G [] cs = Inl DrawsExhausted"
| "rewire_pairs n p nds ((u, v) # uvs) G (r # rs) cs =
     (if r < p
      then (case rewire_edge G u v n nds cs of
              Inl e \<Rightarrow> Inl e
            | Inr (G1, cs1) \<Rightarrow> rewire_pairs n p nds uvs G1 rs cs1)
      else rewire_pairs n p nds uvs G rs cs)"

definition ring_pairs :: "int list \<Rightarrow> int \<Rightarrow> (int \<times> int) list" where
  "ring_pairs nds j = zip nds (drop (nat j) nds @ take (nat j) nds)"

fun rewire_rings ::
  "int \<Rightarrow> real \<Rightarrow> int list \<Rightarrow> int list \<Rightarrow> graph \<Rightarrow> real list \<Rightarrow> nat list
     \<Rightarrow> error + graph \<times> real list \<times> nat list" where
  "rewire_rings n p nds [] G rs cs = Inr (G, rs, cs)"
| "rewire_rings n p nds (j # js) G rs cs =
     (case rewire_pairs n p nds (ring_pairs nds j) G rs cs of
        Inl e \<Rightarrow> Inl e
      | Inr (G1, rs1, cs1) \<Rightarrow> rewire_rings n p nds js G1 rs1 cs1)"

text \<open>
  \<open>watts_strogatz_graph_UnevenK(n, k, p, seed)\<close>. \<open>py\<close> is the generator that
  \<open>random.seed(seed)\<close> starts; \<open>qs\<close> are the values numpy's \<open>random()\<close> returns. The
  result is the graph with what is left of numpy's values.
\<close>

definition watts_strogatz_graph_UnevenK ::
  "int \<Rightarrow> int \<Rightarrow> real \<Rightarrow> rng \<Rightarrow> real list \<Rightarrow> error + graph \<times> real list" where
  "watts_strogatz_graph_UnevenK n k p py qs =
     (if k \<ge> n then Inl NetworkXError
      else
        let nds = [0..n - 1];
            js = [1..k div 2];
            G = foldl (\<lambda>H j. add_edges_from H (ring_pairs nds j)) Graph js
        in case (if k mod 2 = 1 then odd_pass n k p nds nds G (floats py) (picks py) qs
                 else Inr (G, floats py, picks py, qs)) of
             Inl e \<Rightarrow> Inl e
           | Inr (G1, rs1, cs1, qs1) \<Rightarrow>
               (case rewire_rings n p nds js G1 rs1 cs1 of
                  Inl e \<Rightarrow> Inl e
                | Inr (G2, rs2, cs2) \<Rightarrow> Inr (G2, qs1)))"

subsection \<open>Rewiring between the groups\<close>

text \<open>
  The \<open>while True\<close> loop of a link between the groups, entered after the link
  \<open>(edgefrom, edgeto)\<close> was removed: \<open>rs\<close> are numpy's \<open>random()\<close> values, \<open>cs\<close> the
  positions its \<open>choice\<close> picks. \<open>np.random.choice\<close> raises on an empty sequence.
\<close>

fun inter_retry ::
  "graph \<Rightarrow> int \<Rightarrow> int \<Rightarrow> int list \<Rightarrow> int list \<Rightarrow> real list \<Rightarrow> nat list
     \<Rightarrow> error + graph \<times> real list \<times> nat list" where
  "inter_retry G edgefrom edgeto nodes1 nodes2 [] cs = Inl DrawsExhausted"
| "inter_retry G edgefrom edgeto nodes1 nodes2 (r # rs) cs =
     (if (if r < 0.5 then nodes2 else nodes1) = [] then Inl ValueError
      else case cs of
        [] \<Rightarrow> Inl DrawsExhausted
      | c # cs1 \<Rightarrow>
          (let edgetoNew = (if r < 0.5 then choice nodes2 c else edgeto);
               edgefromNew = (if r < 0.5 then edgefrom else choice nodes1 c)
           in if edgefromNew \<noteq> edgetoNew \<and> \<not> has_edge G edgefromNew edgetoNew
              then Inr (add_edge G edgefromNew edgetoNew, rs, cs1)
              else inter_retry G edgefrom edgeto nodes1 nodes2 rs cs1))"

text \<open>One link between the groups: added, and with probability \<open>p\<close> rewired.\<close>

definition connect_link ::
  "int \<Rightarrow> real \<Rightarrow> int list \<Rightarrow> int list \<Rightarrow> int \<Rightarrow> int \<Rightarrow> graph \<Rightarrow> real list \<Rightarrow> nat list
     \<Rightarrow> error + graph \<times> real list \<times> nat list" where
  "connect_link n p nodes1 nodes2 edgefrom i G rs cs =
     (let edgeto = edgeto_of n (int (length nodes1)) edgefrom i;
          G1 = add_edge G edgefrom edgeto
      in case rs of
           [] \<Rightarrow> Inl DrawsExhausted
         | r # rs1 \<Rightarrow>
             if r < p
             then (case remove_edge G1 edgefrom edgeto of
                     Inl e \<Rightarrow> Inl e
                   | Inr G2 \<Rightarrow> inter_retry G2 edgefrom edgeto nodes1 nodes2 rs1 cs)
             else Inr (G1, rs1, cs))"

text \<open>The two nested loops, over the pairs \<open>(edgefrom, i)\<close> in the order of the loops.\<close>

fun connect_links ::
  "int \<Rightarrow> real \<Rightarrow> int list \<Rightarrow> int list \<Rightarrow> (int \<times> int) list \<Rightarrow> graph \<Rightarrow> real list \<Rightarrow> nat list
     \<Rightarrow> error + graph \<times> real list \<times> nat list" where
  "connect_links n p nodes1 nodes2 [] G rs cs = Inr (G, rs, cs)"
| "connect_links n p nodes1 nodes2 ((edgefrom, i) # rest) G rs cs =
     (case connect_link n p nodes1 nodes2 edgefrom i G rs cs of
        Inl e \<Rightarrow> Inl e
      | Inr (G1, rs1, cs1) \<Rightarrow> connect_links n p nodes1 nodes2 rest G1 rs1 cs1)"

subsection \<open>The network of the two groups\<close>

text \<open>
  The result of \<open>create_withinAndBetweenGroup_network\<close>: the graph, the node attribute
  \<open>social_identity\<close> and numpy's generator as the function leaves it. The layout
  \<open>pos\<close> is for plots only and is left out.
\<close>

record network =
  net_graph :: graph
  social_identity_attr :: "int \<rightharpoonup> int"
  net_np :: rng

text \<open>
  \<open>nx.set_node_attributes(G, dict(enumerate(labels)), name)\<close>: the label at position
  \<open>v\<close>, for the nodes \<open>v\<close> of the graph that are keys of the dictionary.
\<close>

definition set_node_attributes :: "graph \<Rightarrow> 'a list \<Rightarrow> (int \<rightharpoonup> 'a)" where
  "set_node_attributes G labels =
     (\<lambda>v. if v \<in> set (nodes G) \<and> 0 \<le> v \<and> v < int (length labels)
          then Some (labels ! nat v) else None)"

text \<open>
  \<open>create_withinAndBetweenGroup_network(n, k_in, k_out, p, seed)\<close>.
  \<open>nx_watts_strogatz_graph\<close> is networkx's generator, which is not part of the
  repository; \<open>py_seeded seed\<close> is the generator that \<open>random.seed(seed)\<close> starts; \<open>np\<close>
  is numpy's global generator. \<open>G1.edges()\<close> is taken in insertion order: the order
  changes no node and no edge of the result.
\<close>

definition create_withinAndBetweenGroup_network ::
  "(int \<Rightarrow> int \<Rightarrow> real \<Rightarrow> int \<Rightarrow> error + graph) \<Rightarrow> (int \<Rightarrow> rng) \<Rightarrow> rng
     \<Rightarrow> int \<Rightarrow> int \<Rightarrow> int \<Rightarrow> real \<Rightarrow> int \<Rightarrow> error + network" where
  "create_withinAndBetweenGroup_network nx_watts_strogatz_graph py_seeded np n k_in k_out p seed =
     (if n mod 2 \<noteq> 0 then Inl AssertionError
      else
        case (if k_in mod 2 = 0 \<and> k_out mod 2 = 0
              then (case nx_watts_strogatz_graph (n div 2) k_in p seed of
                      Inl e \<Rightarrow> Inl e
                    | Inr G1 \<Rightarrow>
                        (case nx_watts_strogatz_graph (n div 2) k_in p (seed + 100) of
                           Inl e \<Rightarrow> Inl e
                         | Inr G2 \<Rightarrow> Inr (G1, G2, floats np)))
              else (case watts_strogatz_graph_UnevenK (n div 2) k_in p (py_seeded seed) (floats np) of
                      Inl e \<Rightarrow> Inl e
                    | Inr (G1, qs1) \<Rightarrow>
                        (case watts_strogatz_graph_UnevenK (n div 2) k_in p
                                (py_seeded (seed + 100)) qs1 of
                           Inl e \<Rightarrow> Inl e
                         | Inr (G2, qs2) \<Rightarrow> Inr (G1, G2, qs2)))) of
          Inl e \<Rightarrow> Inl e
        | Inr (G1, G2a, qs) \<Rightarrow>
            (let len1 = int (length (nodes G1));
                 G2 = relabel_nodes G2a
                        (zip (nodes G2a) (map (\<lambda>i. i + len1) [0..int (length (nodes G2a)) - 1]));
                 G = add_nodes_from (add_edges_from Graph (edges G1 @ edges G2))
                       (nodes G1 @ nodes G2);
                 links = concat (map (\<lambda>edgefrom.
                           map (\<lambda>i. (edgefrom, i)) (which_betweengroup_nodes_to_connect k_out))
                           [0..len1 - 1])
             in case connect_links n p (nodes G1) (nodes G2) links G qs (picks np) of
                  Inl e \<Rightarrow> Inl e
                | Inr (G3, rs, cs) \<Rightarrow>
                    Inr \<lparr>net_graph = G3,
                         social_identity_attr =
                           set_node_attributes G3
                             (replicate (length (nodes G1)) 0 @ replicate (length (nodes G2)) 1),
                         net_np = \<lparr>floats = rs, picks = cs\<rparr>\<rparr>))"

section \<open>model.py\<close>

text \<open>
  Floating-point numbers are modelled as real numbers, numpy arrays as lists and the
  dictionaries keyed by \<open>str(self.time)\<close> as maps from the time.
\<close>

subsection \<open>numpy on lists\<close>

definition np_sum :: "real list \<Rightarrow> real" where
  "np_sum xs = sum_list xs"

definition np_dot :: "real list \<Rightarrow> real list \<Rightarrow> real" where
  "np_dot xs ys = sum_list (map2 (*) xs ys)"

definition np_mean :: "real list \<Rightarrow> real" where
  "np_mean xs = sum_list xs / real (length xs)"

definition np_std :: "real list \<Rightarrow> real" where
  "np_std xs = sqrt (np_mean (map (\<lambda>x. (x - np_mean xs)\<^sup>2) xs))"

text \<open>\<open>np.dot(M, v)\<close> for a matrix given as the list of its rows.\<close>

definition matvec :: "real list list \<Rightarrow> real list \<Rightarrow> real list" where
  "matvec M v = map (\<lambda>row. np_dot row v) M"

definition mat_mul :: "real list list \<Rightarrow> real list list \<Rightarrow> real list list" where
  "mat_mul A B = map (\<lambda>row. map (\<lambda>j. np_dot row (map (\<lambda>r. r ! j) B)) [0..<length B]) A"

text \<open>\<open>np.diag(np.ones(n - |k|), k)\<close>: the \<open>n \<times> n\<close> matrix with ones on the diagonal \<open>k\<close>.\<close>

definition np_diag_ones :: "nat \<Rightarrow> int \<Rightarrow> real list list" where
  "np_diag_ones n k = map (\<lambda>i. map (\<lambda>j. if int j - int i = k then 1 else 0) [0..<n]) [0..<n]"

definition mat_scale :: "real list list \<Rightarrow> real \<Rightarrow> real list list" where
  "mat_scale M c = map (map (\<lambda>x. x * c)) M"

definition mat_add :: "real list list \<Rightarrow> real list list \<Rightarrow> real list list" where
  "mat_add A B = map2 (map2 (+)) A B"

text \<open>\<open>sys.float_info.epsilon\<close>.\<close>

definition float_epsilon :: real where
  "float_epsilon = 1 / 2 ^ 52"

subsection \<open>The opinion space and the heat equation\<close>

definition n_beliefs :: nat where
  "n_beliefs = 200"

text \<open>\<open>np.linspace(-1, 1, n_beliefs + 1, endpoint=True)\<close>.\<close>

definition belief_space_bounds :: "real list" where
  "belief_space_bounds = map (\<lambda>i. -1 + real i * (2 / real n_beliefs)) [0..<n_beliefs + 1]"

definition init_belief_space :: "real list" where
  "init_belief_space =
     map2 (\<lambda>lo hi. lo + (hi - lo) / 2) (butlast belief_space_bounds) (tl belief_space_bounds)"

definition init_db :: real where
  "init_db = (last belief_space_bounds - hd belief_space_bounds) / real n_beliefs"

definition init_uniform :: "real list" where
  "init_uniform = map (\<lambda>x. x / (real n_beliefs * init_db)) (replicate n_beliefs 1)"

definition dt :: real where
  "dt = 1"

definition mat_heat_equation :: "real \<Rightarrow> real \<Rightarrow> real list list" where
  "mat_heat_equation kap d =
     mat_add
       (mat_add (mat_scale (np_diag_ones n_beliefs 0) (1 + 2 * dt * kap / d\<^sup>2))
                (mat_scale (np_diag_ones n_beliefs 1) ((-1) * dt * kap / d\<^sup>2)))
       (mat_scale (np_diag_ones n_beliefs (-1)) ((-1) * dt * kap / d\<^sup>2))"

text \<open>
  \<open>np.linalg.inv\<close> is numpy's and not part of the repository: the inverse is handed to
  the model, and \<open>inverse_of A M\<close> says that \<open>M\<close> is what \<open>np.linalg.inv(A)\<close> returns in
  exact arithmetic, a square matrix of the size of \<open>A\<close> with \<open>A M = I\<close>.
\<close>

definition inverse_of :: "real list list \<Rightarrow> real list list \<Rightarrow> bool" where
  "inverse_of A M =
     (length M = length A \<and> list_all (\<lambda>row. length row = length A) M \<and>
      mat_mul A M = np_diag_ones (length A) 0)"

subsection \<open>Agents\<close>

text \<open>
  The node attribute \<open>social_identity\<close> is an integer where
  \<open>create_withinAndBetweenGroup_network\<close> has set it and a list where
  \<open>OpinionModel.__init__\<close> has overwritten it.
\<close>

datatype social_id = GroupId int | GroupList "int list"

record agent =
  unique_id :: nat
  social_identity :: social_id
  op :: "real list"
  mean_op :: real
  sig :: real
  alpha_in :: real
  alpha_out :: real
  kappa :: real
  communication_frequency :: real
  nbs :: "nat list"

text \<open>
  A value that is a float at one place of the code and used as a dictionary at another.
\<close>

datatype pyvalue = PyFloat real | PyDict "nat \<rightharpoonup> real"

text \<open>
  The attributes of \<open>OpinionModel\<close> that the modelled methods read or write. The
  parameters that the agents copy carry the prefix \<open>model\<close>. \<open>all_sigs\<close> exists only with
  agent-level reporting and \<open>all_ops\<close> is assigned nowhere: \<open>None\<close> is a missing
  attribute. \<open>consensus_time\<close> and \<open>consensus_mean\<close> are \<open>None\<close> for \<open>np.nan\<close>.
\<close>

record model =
  n_agents :: nat
  model_alpha_in :: real
  model_alpha_out :: real
  model_communication_frequency :: real
  model_kappa :: real
  agent_reporter :: bool
  track_times :: "nat list"
  sigma_threshold_consensus :: real
  belief_space :: "real list"
  db :: real
  uniform :: "real list"
  mat_heat_equ_inv :: "real list list"
  schedule :: "agent list"
  all_mean_ops :: "nat \<rightharpoonup> real list"
  all_sigs :: "(nat \<rightharpoonup> real list) option"
  all_ops :: "(nat \<rightharpoonup> real list) option"
  avg_mean_ops :: "nat \<rightharpoonup> real"
  std_mean_ops :: pyvalue
  all_std_mean_op :: "nat \<rightharpoonup> real"
  consensus_time :: "nat option"
  consensus_mean :: "real option"
  running :: bool
  time :: nat
  stored_times :: "nat list"

text \<open>The mean and the uncertainty of an opinion distribution, as all three updates compute them.\<close>

definition mean_of :: "real list \<Rightarrow> real list \<Rightarrow> real" where
  "mean_of bs p = np_dot p bs / np_sum p"

definition sig_of :: "real list \<Rightarrow> real list \<Rightarrow> real" where
  "sig_of bs p =
     (let var = np_dot p (map (\<lambda>x. x\<^sup>2) bs) / np_sum p - (mean_of bs p)\<^sup>2
      in if var > 0 then sqrt var else float_epsilon)"

text \<open>\<open>x / (x.sum() * db)\<close>.\<close>

definition normalise :: "real \<Rightarrow> real list \<Rightarrow> real list" where
  "normalise d p = map (\<lambda>x. x / (np_sum p * d)) p"

text \<open>\<open>Agent.__init__\<close>; the position is for plots only and left out.\<close>

definition Agent :: "model \<Rightarrow> nat \<Rightarrow> social_id \<Rightarrow> nat list \<Rightarrow> real list \<Rightarrow> agent" where
  "Agent m i sid neighbours op_dist =
     \<lparr>unique_id = i, social_identity = sid, op = op_dist,
      mean_op = mean_of (belief_space m) op_dist, sig = sig_of (belief_space m) op_dist,
      alpha_in = model_alpha_in m, alpha_out = model_alpha_out m, kappa = model_kappa m,
      communication_frequency = model_communication_frequency m, nbs = neighbours\<rparr>"

text \<open>
  \<open>update_opinion_in_interaction\<close>; \<open>c\<close> is the position that \<open>np.random.choice(self.nbs)\<close>
  picks. Indexing the schedule beyond its end raises.
\<close>

definition update_opinion_in_interaction :: "model \<Rightarrow> agent \<Rightarrow> nat \<Rightarrow> error + agent" where
  "update_opinion_in_interaction m self c =
     (let speaker_id = choice (nbs self) c
      in if speaker_id \<ge> length (schedule m) then Inl IndexError
         else
           let speaker = schedule m ! speaker_id;
               message = op speaker;
               alpha = (if social_identity speaker = social_identity self
                        then alpha_in self else alpha_out self);
               perceived_message =
                 map2 (+) (map (\<lambda>x. alpha * x) message) (map (\<lambda>x. (1 - alpha) * x) (uniform m));
               posterior_op0 = map2 (*) (op self) perceived_message;
               posterior_op =
                 (if np_sum posterior_op0 < float_epsilon then op self else posterior_op0);
               new_op = normalise (db m) posterior_op
           in Inr (self\<lparr>op := new_op, mean_op := mean_of (belief_space m) new_op,
                        sig := sig_of (belief_space m) new_op\<rparr>))"

definition update_opinion_in_non_interaction :: "model \<Rightarrow> agent \<Rightarrow> agent" where
  "update_opinion_in_non_interaction m self =
     (let diffused_op = matvec (mat_heat_equ_inv m) (op self);
          new_op = normalise (db m) diffused_op
      in self\<lparr>op := new_op, mean_op := mean_of (belief_space m) new_op,
              sig := sig_of (belief_space m) new_op\<rparr>)"

text \<open>\<open>Agent.step\<close>; \<open>u\<close> is the value of \<open>np.random.random()\<close>.\<close>

definition agent_step :: "model \<Rightarrow> agent \<Rightarrow> real \<Rightarrow> nat \<Rightarrow> error + agent" where
  "agent_step m self u c =
     (if u < communication_frequency self
      then (if length (nbs self) = 0 then Inr self
            else update_opinion_in_interaction m self c)
      else Inr (update_opinion_in_non_interaction m self))"

text \<open>
  The perceived message and the posterior before it is normalised, as
  \<open>update_opinion_in_interaction\<close> computes them for a speaker.
\<close>

definition perceived_message :: "model \<Rightarrow> agent \<Rightarrow> agent \<Rightarrow> real list" where
  "perceived_message m self speaker =
     (let alpha = (if social_identity speaker = social_identity self
                   then alpha_in self else alpha_out self)
      in map2 (+) (map (\<lambda>x. alpha * x) (op speaker)) (map (\<lambda>x. (1 - alpha) * x) (uniform m)))"

definition unnormalised_posterior :: "model \<Rightarrow> agent \<Rightarrow> agent \<Rightarrow> real list" where
  "unnormalised_posterior m self speaker = map2 (*) (op self) (perceived_message m self speaker)"

subsection \<open>The model\<close>

text \<open>
  The loop over \<open>update_order\<close> in \<open>OpinionModel.step\<close>. The draws of one tick are, for
  every agent of the random order in turn, its position in the schedule, the value of
  its \<open>np.random.random()\<close> and the position its \<open>np.random.choice\<close> picks. The agents
  are updated in place, so a later agent sees the new opinion of an earlier one. A
  position beyond the schedule, which the random order cannot hold, ends with an error.
\<close>

fun update_agents :: "model \<Rightarrow> (nat \<times> real \<times> nat) list \<Rightarrow> error + model" where
  "update_agents m [] = Inr m"
| "update_agents m ((i, u, c) # rest) =
     (if i \<ge> length (schedule m) then Inl IndexError
      else case agent_step m (schedule m ! i) u c of
             Inl e \<Rightarrow> Inl e
           | Inr ag \<Rightarrow> update_agents (m\<lparr>schedule := (schedule m)[i := ag]\<rparr>) rest)"

definition observe :: "model \<Rightarrow> error + model" where
  "observe m =
     (let curr_mean_ops = map mean_op (schedule m);
          m1 = m\<lparr>avg_mean_ops := (avg_mean_ops m)(time m \<mapsto> np_mean curr_mean_ops)\<rparr>
      in case std_mean_ops m1 of
           PyFloat x \<Rightarrow> Inl TypeError
         | PyDict d \<Rightarrow>
             (let m2 = m1\<lparr>std_mean_ops := PyDict (d(time m1 \<mapsto> np_std curr_mean_ops))\<rparr>
              in if agent_reporter m2
                 then (case all_ops m2 of
                         None \<Rightarrow> Inl AttributeError
                       | Some ao \<Rightarrow>
                           (case all_sigs m2 of
                              None \<Rightarrow> Inl AttributeError
                            | Some asg \<Rightarrow>
                                Inr (m2\<lparr>all_ops := Some (ao(time m2 \<mapsto> curr_mean_ops)),
                                        all_sigs :=
                                          Some (asg(time m2 \<mapsto> map sig (schedule m2)))\<rparr>)))
                 else Inr m2))"

text \<open>
  \<open>OpinionModel.step\<close>. \<open>np.random.choice(..., size=n_agents, replace=False)\<close> raises
  when the schedule has fewer than \<open>n_agents\<close> agents.
\<close>

definition step :: "model \<Rightarrow> (nat \<times> real \<times> nat) list \<Rightarrow> error + model" where
  "step m draws =
     (if length (schedule m) < n_agents m then Inl ValueError
      else case update_agents m draws of
             Inl e \<Rightarrow> Inl e
           | Inr m1 \<Rightarrow>
               (let m2 = m1\<lparr>time := time m1 + 1\<rparr>;
                    m3 = m2\<lparr>std_mean_ops := PyFloat (np_std (map mean_op (schedule m2)))\<rparr>
                in if time m3 \<in> set (track_times m3)
                   then (case observe m3 of
                           Inl e \<Rightarrow> Inl e
                         | Inr m4 \<Rightarrow> Inr (m4\<lparr>stored_times := stored_times m4 @ [time m4]\<rparr>))
                   else Inr m3))"

text \<open>
  The loop of \<open>OpinionModel.simulation\<close> over the ticks still to run, with the list
  \<open>time_cons\<close>; \<open>draws t\<close> are the draws of tick \<open>t\<close>. The result is the model with the
  final \<open>time_cons\<close>.
\<close>

fun simulation_loop ::
  "(nat \<Rightarrow> (nat \<times> real \<times> nat) list) \<Rightarrow> nat list \<Rightarrow> model \<Rightarrow> nat list
     \<Rightarrow> error + model \<times> nat list" where
  "simulation_loop draws [] m time_cons = Inr (m, time_cons)"
| "simulation_loop draws (t # ts) m time_cons =
     (case step m (draws t) of
        Inl e \<Rightarrow> Inl e
      | Inr m1 \<Rightarrow>
          (case std_mean_ops m1 of
             PyDict d \<Rightarrow> Inl TypeError
           | PyFloat x \<Rightarrow>
               (let time_cons1 =
                      (if x < sigma_threshold_consensus m1 then time_cons @ [t] else time_cons)
                in if length time_cons1 > 20
                   then (let m2 = m1\<lparr>consensus_time := Some (hd time_cons1),
                                     consensus_mean := Some (np_mean (map mean_op (schedule m1)))\<rparr>
                         in if \<not> agent_reporter m2 then Inr (m2, time_cons1)
                            else simulation_loop draws ts m2 time_cons1)
                   else simulation_loop draws ts m1 time_cons1)))"

definition simulation :: "(nat \<Rightarrow> (nat \<times> real \<times> nat) list) \<Rightarrow> model \<Rightarrow> error + model" where
  "simulation draws m =
     (case track_times m of
        [] \<Rightarrow> Inl IndexError
      | _ \<Rightarrow> (case simulation_loop draws [0..<last (track_times m)] m [] of
                Inl e \<Rightarrow> Inl e
              | Inr (m1, time_cons) \<Rightarrow> Inr m1))"

text \<open>
  The ticks of the simulation without the consensus bookkeeping: the model after
  \<open>step\<close> has run for each tick of the list. \<open>below_threshold draws m t\<close> says that tick
  \<open>t\<close> of the run from \<open>m\<close> ends with a dispersion below the threshold.
\<close>

fun run_ticks :: "(nat \<Rightarrow> (nat \<times> real \<times> nat) list) \<Rightarrow> nat list \<Rightarrow> model \<Rightarrow> error + model" where
  "run_ticks draws [] m = Inr m"
| "run_ticks draws (t # ts) m =
     (case step m (draws t) of Inl e \<Rightarrow> Inl e | Inr m1 \<Rightarrow> run_ticks draws ts m1)"

definition below_threshold :: "(nat \<Rightarrow> (nat \<times> real \<times> nat) list) \<Rightarrow> model \<Rightarrow> nat \<Rightarrow> bool" where
  "below_threshold draws m t =
     (case run_ticks draws [0..<Suc t] m of
        Inl e \<Rightarrow> False
      | Inr m1 \<Rightarrow>
          (case std_mean_ops m1 of
             PyFloat x \<Rightarrow> x < sigma_threshold_consensus m1
           | PyDict d \<Rightarrow> False))"

subsection \<open>The construction of the model\<close>

text \<open>\<open>stats.norm(loc, scale).pdf(x)\<close>.\<close>

definition norm_pdf :: "real \<Rightarrow> real \<Rightarrow> real \<Rightarrow> real" where
  "norm_pdf loc scale x = exp (- ((x - loc) / scale)\<^sup>2 / 2) / (scale * sqrt (2 * pi))"

text \<open>The initial opinion distribution \<open>op_normed\<close> of an agent.\<close>

definition initial_opinion :: "model \<Rightarrow> real \<Rightarrow> real \<Rightarrow> real list" where
  "initial_opinion m mu_0 sg = normalise (db m) (map (norm_pdf mu_0 sg) (belief_space m))"

text \<open>
  The loop that creates the agents, for the positions \<open>i\<close> still to visit: \<open>attrs\<close> is the
  node attribute \<open>social_identity\<close>, \<open>G\<close> the graph and \<open>rs\<close> are the values of
  \<open>np.random.random()\<close>. A node or an attribute that is missing raises.
\<close>

fun create_agents ::
  "graph \<Rightarrow> (int \<rightharpoonup> social_id) \<Rightarrow> real \<Rightarrow> real \<Rightarrow> nat list \<Rightarrow> model \<Rightarrow> real list \<Rightarrow> error + model" where
  "create_agents G attrs sig_op_0 delta_0 [] m rs = Inr m"
| "create_agents G attrs sig_op_0 delta_0 (i # is) m rs =
     (case attrs (int i) of
        None \<Rightarrow> Inl KeyError
      | Some social_id \<Rightarrow>
          (case rs of
             r1 # r2 # rs1 \<Rightarrow>
               (let positiveInitialMu =
                      (if social_id = GroupId 0 then r1 < 0.5 + delta_0 / 2
                       else r1 < 0.5 - delta_0 / 2);
                    mu_0 = (if positiveInitialMu then r2 else - r2);
                    op_normed = initial_opinion m mu_0 sig_op_0
                in if int i \<notin> set (nodes G) then Inl NetworkXError
                   else create_agents G attrs sig_op_0 delta_0 is
                          (m\<lparr>schedule := schedule m @
                               [Agent m i social_id (map nat (neighbors G (int i))) op_normed]\<rparr>)
                          rs1)
           | _ \<Rightarrow> Inl DrawsExhausted))"

text \<open>The data collection of \<open>__init__\<close>, up to the call of \<open>observe\<close>.\<close>

definition collect_data :: "model \<Rightarrow> model" where
  "collect_data m =
     (let means = map mean_op (schedule m)
      in m\<lparr>all_mean_ops := [0 \<mapsto> means],
            all_sigs := (if agent_reporter m then Some [0 \<mapsto> map sig (schedule m)] else None),
            all_ops := None,
            avg_mean_ops := [0 \<mapsto> np_mean means],
            std_mean_ops := PyFloat (np_std means),
            all_std_mean_op := [0 \<mapsto> np_std means],
            consensus_time := None,
            consensus_mean := None,
            running := True,
            time := 0\<rparr>)"

text \<open>
  The attributes that \<open>__init__\<close> sets before it creates the network; the attributes of
  the data collection do not exist yet and hold arbitrary values here.
\<close>

definition new_model ::
  "nat \<Rightarrow> real \<Rightarrow> real \<Rightarrow> real \<Rightarrow> real \<Rightarrow> bool \<Rightarrow> nat list \<Rightarrow> real list list \<Rightarrow> model" where
  "new_model n a_in a_out comm_f kap reporter tts minv =
     \<lparr>n_agents = n, model_alpha_in = a_in, model_alpha_out = a_out,
      model_communication_frequency = comm_f, model_kappa = kap,
      agent_reporter = reporter, track_times = tts, sigma_threshold_consensus = 0.01,
      belief_space = init_belief_space, db = init_db, uniform = init_uniform,
      mat_heat_equ_inv = minv, schedule = [],
      all_mean_ops = Map.empty, all_sigs = None, all_ops = None, avg_mean_ops = Map.empty,
      std_mean_ops = PyFloat 0, all_std_mean_op = Map.empty,
      consensus_time = None, consensus_mean = None, running = True, time = 0,
      stored_times = []\<rparr>"

text \<open>
  \<open>OpinionModel.__init__\<close>. Beside the parameters it takes what the libraries supply:
  networkx's generator, the generators that \<open>random.seed\<close> and \<open>np.random.seed\<close> start, the
  matrix \<open>minv\<close> that \<open>np.linalg.inv\<close> returns and the values \<open>rs\<close> that
  \<open>np.random.random()\<close> returns while the agents are created.
\<close>

definition OpinionModel_init ::
  "(int \<Rightarrow> int \<Rightarrow> real \<Rightarrow> int \<Rightarrow> error + graph) \<Rightarrow> (int \<Rightarrow> rng) \<Rightarrow> (int \<Rightarrow> rng)
     \<Rightarrow> real list list \<Rightarrow> real list
     \<Rightarrow> nat \<Rightarrow> int list \<Rightarrow> real \<Rightarrow> real \<Rightarrow> int \<Rightarrow> real \<Rightarrow> int \<Rightarrow> int \<Rightarrow> real \<Rightarrow> real \<Rightarrow> real
     \<Rightarrow> real \<Rightarrow> int \<Rightarrow> bool \<Rightarrow> nat list \<Rightarrow> error + model" where
  "OpinionModel_init nx_watts_strogatz_graph py_seeded np_seeded minv rs
     n social_id_groups a_in a_out k p_rewire k_in k_out sig_op_0 comm_f kap delta_0 seed
     reporter tts =
     (if k_out + k_in \<noteq> k then Inl AssertionError
      else if social_id_groups = [] then Inl ZeroDivisionError
      else if n mod length social_id_groups \<noteq> 0 then Inl AssertionError
      else
        case create_withinAndBetweenGroup_network nx_watts_strogatz_graph py_seeded
               (np_seeded seed) (int n) k_in k_out p_rewire seed of
          Inl e \<Rightarrow> Inl e
        | Inr net \<Rightarrow>
            (let G = net_graph net;
                 group_size = n div length social_id_groups;
                 social_id_affiliations =
                   set_node_attributes G (map (replicate group_size) social_id_groups);
                 attrs = (\<lambda>v. case social_id_affiliations v of
                                 Some ids \<Rightarrow> Some (GroupList ids)
                               | None \<Rightarrow> map_option GroupId (social_identity_attr net v))
             in case create_agents G attrs sig_op_0 delta_0 [0..<length (nodes G)]
                       (new_model n a_in a_out comm_f kap reporter tts minv) rs of
                  Inl e \<Rightarrow> Inl e
                | Inr m \<Rightarrow>
                    (case observe (collect_data m) of
                       Inl e \<Rightarrow> Inl e
                     | Inr m1 \<Rightarrow> Inr (m1\<lparr>stored_times := [0]\<rparr>))))"

subsection \<open>Example states\<close>

text \<open>
  The state a model with the given agents would have after \<open>__init__\<close>: no diffusion
  (\<open>kappa = 0\<close>, so the matrix of the heat equation and its inverse are the identity),
  in-group and out-group transparency 1 and communication frequency \<open>1/2\<close>.
\<close>

definition example_state :: "bool \<Rightarrow> nat list \<Rightarrow> agent list \<Rightarrow> model" where
  "example_state reporter tts ags =
     (collect_data
        ((new_model (length ags) 1 1 (1/2) 0 reporter tts (np_diag_ones n_beliefs 0))
           \<lparr>schedule := ags\<rparr>))\<lparr>stored_times := [0]\<rparr>"

text \<open>All the mass in bin \<open>k\<close>, and half of it in each of the bins \<open>k\<close> and \<open>k + 1\<close>.\<close>

definition point_mass :: "nat \<Rightarrow> real list" where
  "point_mass k = (replicate n_beliefs 0)[k := 1 / init_db]"

definition two_point_mass :: "nat \<Rightarrow> real list" where
  "two_point_mass k = (replicate n_beliefs 0)[k := 1 / (2 * init_db), Suc k := 1 / (2 * init_db)]"

text \<open>An agent of group 0 of the example states with the given neighbours and opinion.\<close>

definition example_agent :: "nat \<Rightarrow> nat list \<Rightarrow> real list \<Rightarrow> agent" where
  "example_agent i neighbours p =
     Agent (new_model 2 1 1 (1/2) 0 False [] (np_diag_ones n_beliefs 0)) i (GroupId 0) neighbours p"

text \<open>Two neighbours with all their mass in the bins 50 and 150.\<close>

definition opposed_pair :: "agent list" where
  "opposed_pair = [example_agent 0 [1] (point_mass 50), example_agent 1 [0] (point_mass 150)]"

text \<open>
  An agent whose density has the length of the opinion space and integrates to 1 and
  whose mean and uncertainty are those of its density, as after every update.
\<close>

definition settled :: "model \<Rightarrow> agent \<Rightarrow> bool" where
  "settled m a =
     (length (op a) = n_beliefs \<and> np_sum (op a) * db m = 1 \<and>
      mean_op a = mean_of (belief_space m) (op a) \<and> sig a = sig_of (belief_space m) (op a))"

text \<open>
  The draws of a tick in which the \<open>n\<close> agents are updated in the order of the schedule
  and every \<open>np.random.random()\<close> returns \<open>3/4\<close>.
\<close>

definition quiet_tick :: "nat \<Rightarrow> (nat \<times> real \<times> nat) list" where
  "quiet_tick n = map (\<lambda>j. (j, 3/4, 0)) [0..<n]"

text \<open>An agent without neighbours that never communicates, alone in its model.\<close>

definition idle_agent :: agent where
  "idle_agent = (example_agent 0 [] (point_mass 100))\<lparr>communication_frequency := 0\<rparr>"

subsection \<open>Predicates on candidates and example inputs\<close>

text \<open>A candidate \<open>w\<close> that ends the retry loop inside a group: the loop condition is false.\<close>

definition acceptable :: "graph \<Rightarrow> int \<Rightarrow> int \<Rightarrow> bool" where
  "acceptable G u w = (w \<noteq> u \<and> \<not> has_edge G u w)"



text \<open>
  The first two values of \<open>random.random()\<close> after \<open>random.seed(0)\<close> (0.8444, 0.7580)
  and after \<open>random.seed(100)\<close> (0.1457, 0.4549), rounded.
\<close>

definition py_seeded_0 :: "int \<Rightarrow> rng" where
  "py_seeded_0 seed =
     (if seed = 0 then \<lparr>floats = [21/25, 3/4], picks = []\<rparr>
      else \<lparr>floats = [7/50, 9/20], picks = []\<rparr>)"




section \<open>Properties of the network generator\<close>

lemma upto_0_1: "[0..1::int] = [0, 1]"
  by (simp add: upto_rec1)

subsection \<open>The retry loops\<close>

lemma retry_target_result:
  "retry_target G u n nds w cs = Inr (r, cs') \<Longrightarrow>
     (case r of Rewire w' \<Rightarrow> acceptable G u w' | Skip \<Rightarrow> n - 1 \<le> degree G u)"
  by (induction cs arbitrary: w) (auto simp: acceptable_def split: if_splits)


text \<open>
  Without an acceptable draw and below the degree bound the loop never leaves: it uses up
  every list of draws.
\<close>

lemma retry_target_starved:
  "\<not> acceptable G u w \<Longrightarrow> \<forall>c \<in> set cs. \<not> acceptable G u (choice nds c) \<Longrightarrow>
   degree G u < n - 1 \<Longrightarrow> retry_target G u n nds w cs = Inl DrawsExhausted"
  by (induction cs arbitrary: w) (auto simp: acceptable_def)


lemma rewire_edge_result:
  assumes "rewire_edge G u v n nds cs = Inr (G', cs')"
  shows "(G' = G \<and> n - 1 \<le> degree G u) \<or>
         (\<exists>w G1. acceptable G u w \<and> remove_edge G u v = Inr G1 \<and> G' = add_edge G1 u w)"
proof -
  from assms obtain c cs1 where cs: "cs = c # cs1"
    by (cases cs) (auto simp: rewire_edge_def)
  from assms cs obtain r cs2 where r: "retry_target G u n nds (choice nds c) cs1 = Inr (r, cs2)"
    by (cases "retry_target G u n nds (choice nds c) cs1") (auto simp: rewire_edge_def)
  show ?thesis
  proof (cases r)
    case (Rewire w)
    with retry_target_result[OF r] have "acceptable G u w" by simp
    moreover from assms cs r Rewire obtain G1
      where "remove_edge G u v = Inr G1" "G' = add_edge G1 u w"
      by (cases "remove_edge G u v") (auto simp: rewire_edge_def)
    ultimately show ?thesis by blast
  next
    case Skip
    with retry_target_result[OF r] have "n - 1 \<le> degree G u" by simp
    moreover from assms cs r Skip have "G' = G" by (auto simp: rewire_edge_def)
    ultimately show ?thesis by blast
  qed
qed










subsection \<open>The nodes of the network\<close>

lemma UnevenK_group_1: "watts_strogatz_graph_UnevenK 2 1 0 (py_seeded_0 0) [1/2, 1/2] = Inr (Graph, [1/2, 1/2])"
  by (simp add: watts_strogatz_graph_UnevenK_def py_seeded_0_def upto_0_1)

lemma UnevenK_group_2: "watts_strogatz_graph_UnevenK 2 1 0 (py_seeded_0 100) [1/2, 1/2] = Inr (\<lparr>nodes = [0, 1], edges = [(0, 1)]\<rparr>, [])"
  by (simp add: watts_strogatz_graph_UnevenK_def py_seeded_0_def upto_0_1 Graph_def add_edge_def add_node_def has_edge_def)

text \<open>
  C8 fails on the code for \<open>k_in = 1\<close>: with \<open>n = 4\<close>, \<open>k_in = k_out = 1\<close>, \<open>p = 0\<close> and
  \<open>seed = 0\<close> the first group gets no edge, hence no node, and the network has the two
  nodes 0 and 1, both labelled 1, instead of four nodes in two groups.
\<close>

theorem network_with_missing_nodes:
  "create_withinAndBetweenGroup_network nx py_seeded_0 \<lparr>floats = [1/2, 1/2], picks = cs\<rparr> 4 1 1 0 0
   = Inr \<lparr>net_graph = \<lparr>nodes = [0, 1], edges = [(0, 1)]\<rparr>,
          social_identity_attr = [0 \<mapsto> 1, 1 \<mapsto> 1],
          net_np = \<lparr>floats = [], picks = cs\<rparr>\<rparr>"
  apply (simp add: create_withinAndBetweenGroup_network_def UnevenK_group_1 UnevenK_group_2 Graph_def
     add_edge_def add_node_def has_edge_def add_edges_from_def add_nodes_from_def relabel_nodes_def relabel_def Let_def upto_0_1
    which_betweengroup_nodes_to_connect_def py_prefix_def set_node_attributes_def)
  apply (auto simp: fun_eq_iff)
  done

subsection \<open>The links between the groups\<close>

lemma offsets_cases: "0 \<le> k \<Longrightarrow> k = 0 \<or> k = 1 \<or> k = 2 \<or> k = 3 \<or> k = 4 \<or> k = 5 \<or> k = 6 \<or> k = 7 \<or> k = 8 \<or> 9 \<le> (k::int)"
  by arith

text \<open>
  The offsets and the endpoints they give: for \<open>k_out \<ge> 0\<close> the list of offsets has
  \<open>min(k_out, 9)\<close> entries, and in a group of at least that many nodes the endpoints of a
  node of group 1 are distinct nodes of group 2.
\<close>

lemma between_group_targets:
  assumes "0 \<le> k_out"
  shows "length (which_betweengroup_nodes_to_connect k_out) = nat (min k_out 9) \<and>
    (0 \<le> edgefrom \<and> edgefrom < g \<and> min k_out 9 \<le> g \<longrightarrow>
      distinct (map (edgeto_of (2 * g) g edgefrom) (which_betweengroup_nodes_to_connect k_out)) \<and>
      (\<forall>t \<in> set (map (edgeto_of (2 * g) g edgefrom) (which_betweengroup_nodes_to_connect k_out)).
         g \<le> t \<and> t < 2 * g))"
  using offsets_cases[OF assms]
  apply (elim disjE)
  apply (simp_all add: which_betweengroup_nodes_to_connect_def py_prefix_def edgeto_of_def Let_def)
  done

lemma has_edge_add_edge:
  "has_edge (add_edge G u v) a b \<longleftrightarrow> has_edge G a b \<or> (a = u \<and> b = v) \<or> (a = v \<and> b = u)"
  by (auto simp: add_edge_def add_node_def has_edge_def Let_def)

lemma has_edge_add_links:
  "has_edge (foldl (\<lambda>H (ef, i). add_edge H ef (f ef i)) G links) a b \<longleftrightarrow>
     has_edge G a b \<or> (\<exists>(ef, i) \<in> set links. (a = ef \<and> b = f ef i) \<or> (a = f ef i \<and> b = ef))"
proof (induction links arbitrary: G)
  case Nil
  then show ?case by simp
next
  case (Cons x links)
  obtain ef i where x: "x = (ef, i)" by (cases x) auto
  show ?case unfolding x by (auto simp: Cons.IH has_edge_add_edge)
qed

text \<open>
  When no link is rewired (every value of \<open>random()\<close> is at least \<open>p\<close>), the two nested
  loops return the graph with every link added by \<open>add_edge\<close>, and use up one draw a link.
\<close>

lemma connect_links_without_rewiring:
  "length rs = length links \<Longrightarrow> \<forall>r \<in> set rs. p \<le> r \<Longrightarrow>
   connect_links n p nodes1 nodes2 links G rs cs =
     Inr (foldl (\<lambda>H (ef, i). add_edge H ef (edgeto_of n (int (length nodes1)) ef i)) G links, [], cs)"
proof (induction links arbitrary: G rs)
  case Nil
  then show ?case by simp
next
  case (Cons x links)
  obtain ef i where x: "x = (ef, i)" by (cases x) auto
  from Cons.prems obtain r rs1 where rs: "rs = r # rs1" by (cases rs) auto
  with Cons.prems have r: "\<not> r < p" and l: "length rs1 = length links" and a: "\<forall>r \<in> set rs1. p \<le> r"
    by auto
  show ?case unfolding x rs using r Cons.IH[OF l a] by (simp add: connect_link_def Let_def)
qed

lemma set_neighbors: "set (neighbors G u) = {v. has_edge G u v}"
  by (auto simp: neighbors_def has_edge_def split: if_splits) force+


lemma group_2_neighbours:
  assumes k: "0 \<le> k_out" and g: "min k_out 9 \<le> g" and e: "0 \<le> e" "e < g"
    and G: "\<forall>v. has_edge G e v \<longrightarrow> v < g"
  defines "links \<equiv> concat (map (\<lambda>edgefrom. map (\<lambda>i. (edgefrom, i))
                       (which_betweengroup_nodes_to_connect k_out)) [0..g - 1])"
  defines "G' \<equiv> foldl (\<lambda>H (ef, i). add_edge H ef (edgeto_of (2 * g) g ef i)) G links"
  shows "{v \<in> set (neighbors G' e). g \<le> v} =
         set (map (edgeto_of (2 * g) g e) (which_betweengroup_nodes_to_connect k_out))"
proof -
  let ?offs = "which_betweengroup_nodes_to_connect k_out"
  have links: "(ef, i) \<in> set links \<longleftrightarrow> 0 \<le> ef \<and> ef < g \<and> i \<in> set ?offs" for ef i
    by (auto simp: links_def)
  have range: "g \<le> edgeto_of (2 * g) g ef i \<and> edgeto_of (2 * g) g ef i < 2 * g"
    if "0 \<le> ef" "ef < g" "i \<in> set ?offs" for ef i
    using between_group_targets[OF k, of ef g] that g by simp
  show ?thesis
  proof (intro set_eqI iffI)
    fix v assume "v \<in> {v \<in> set (neighbors G' e). g \<le> v}"
    then have h: "has_edge G' e v" and v: "g \<le> v" by (simp_all add: set_neighbors)
    from h consider (old) "has_edge G e v"
      | (out) ef i where "(ef, i) \<in> set links" "e = ef" "v = edgeto_of (2 * g) g ef i"
      | (inward) ef i where "(ef, i) \<in> set links" "e = edgeto_of (2 * g) g ef i" "v = ef"
      unfolding G'_def has_edge_add_links by blast
    then show "v \<in> set (map (edgeto_of (2 * g) g e) ?offs)"
    proof cases
      case old
      with G v show ?thesis by force
    next
      case out
      then show ?thesis by (auto simp: links)
    next
      case inward
      with v show ?thesis by (auto simp: links)
    qed
  next
    fix v assume "v \<in> set (map (edgeto_of (2 * g) g e) ?offs)"
    then obtain i where i: "i \<in> set ?offs" "v = edgeto_of (2 * g) g e i" by auto
    with e have "(e, i) \<in> set links" by (simp add: links)
    with i have "has_edge G' e v" unfolding G'_def has_edge_add_links by blast
    moreover from range[OF e i(1)] i have "g \<le> v" by simp
    ultimately show "v \<in> {v \<in> set (neighbors G' e). g \<le> v}" by (simp add: set_neighbors)
  qed
qed

text \<open>
  C10 (amended). For \<open>k_out \<ge> 0\<close> the list of offsets has \<open>min(k_out, 9)\<close> entries, nine at
  most. In two groups of \<open>g \<ge> min(k_out, 9)\<close> nodes each, when no link is rewired, the
  loops over the links return a graph in which every node of group 1 that had no
  neighbour outside its group before has exactly \<open>min(k_out, 9)\<close> neighbours outside its
  group, all of them nodes of group 2.
\<close>

theorem between_group_links:
  assumes "0 \<le> k_out" and "min k_out 9 \<le> g" and "int (length nodes1) = g"
    and "0 \<le> e" and "e < g"
    and "\<forall>v. has_edge G e v \<longrightarrow> v < g"
    and "links = concat (map (\<lambda>edgefrom. map (\<lambda>i. (edgefrom, i))
                   (which_betweengroup_nodes_to_connect k_out)) [0..g - 1])"
    and "length rs = length links" and "\<forall>r \<in> set rs. p \<le> r"
  shows "length (which_betweengroup_nodes_to_connect k_out) = nat (min k_out 9) \<and>
    (\<exists>G'. connect_links (2 * g) p nodes1 nodes2 links G rs cs = Inr (G', [], cs) \<and>
          card {v \<in> set (neighbors G' e). g \<le> v} = nat (min k_out 9) \<and>
          (\<forall>v \<in> set (neighbors G' e). g \<le> v \<longrightarrow> v < 2 * g))"
proof -
  let ?offs = "which_betweengroup_nodes_to_connect k_out"
  let ?G' = "foldl (\<lambda>H (ef, i). add_edge H ef (edgeto_of (2 * g) g ef i)) G links"
  have len: "length ?offs = nat (min k_out 9)"
    using between_group_targets[OF assms(1)] by simp
  have run: "connect_links (2 * g) p nodes1 nodes2 links G rs cs = Inr (?G', [], cs)"
    using connect_links_without_rewiring[OF assms(8,9), of "2 * g" nodes1 nodes2 G cs] assms(3)
    by simp
  have nb: "{v \<in> set (neighbors ?G' e). g \<le> v} = set (map (edgeto_of (2 * g) g e) ?offs)"
    unfolding assms(7) by (rule group_2_neighbours[OF assms(1,2,4,5,6)])
  have tg: "distinct (map (edgeto_of (2 * g) g e) ?offs)"
    "\<forall>t \<in> set (map (edgeto_of (2 * g) g e) ?offs). g \<le> t \<and> t < 2 * g"
    using between_group_targets[OF assms(1), of e g] assms(2,4,5) by simp_all
  have "card {v \<in> set (neighbors ?G' e). g \<le> v} = nat (min k_out 9)"
    unfolding nb using distinct_card[OF tg(1)] len by simp
  moreover have "\<forall>v \<in> set (neighbors ?G' e). g \<le> v \<longrightarrow> v < 2 * g"
    using nb tg(2) by blast
  ultimately show ?thesis using len run by blast
qed


theorem between_group_links_witness:
  "connect_links 4 0 [0, 1] [2, 3] [(0, 0), (0, 1), (1, 0), (1, 1)]
      \<lparr>nodes = [0, 1, 2, 3], edges = [(0, 1), (2, 3)]\<rparr> [1/2, 1/2, 1/2, 1/2] []
     = Inr (\<lparr>nodes = [0, 1, 2, 3], edges = [(0, 1), (2, 3), (0, 2), (0, 3), (1, 3), (1, 2)]\<rparr>, [], []) \<and>
   length (which_betweengroup_nodes_to_connect 2) = 2 \<and>
   neighbors \<lparr>nodes = [0, 1, 2, 3], edges = [(0, 1), (2, 3), (0, 2), (0, 3), (1, 3), (1, 2)]\<rparr> 0 = [1, 2, 3] \<and>
   card {v \<in> set (neighbors \<lparr>nodes = [0, 1, 2, 3],
                     edges = [(0, 1), (2, 3), (0, 2), (0, 3), (1, 3), (1, 2)]\<rparr> 0). 2 \<le> v} = 2"
proof -
  let ?G = "\<lparr>nodes = [0, 1, 2, 3], edges = [(0, 1), (2, 3)]\<rparr>"
  let ?G1 = "\<lparr>nodes = [0, 1, 2, 3], edges = [(0, 1), (2, 3), (0, 2), (0, 3), (1, 3), (1, 2)]\<rparr>"
  let ?links = "[(0, 0), (0, 1), (1, 0), (1, 1)] :: (int \<times> int) list"
  let ?rs = "[1/2, 1/2, 1/2, 1/2] :: real list"
  have run: "connect_links 4 0 [0, 1] [2, 3] ?links ?G ?rs [] = Inr (?G1, [], [])"
    by (simp add: edgeto_of_def connect_link_def add_edge_def add_node_def has_edge_def Let_def)
  have nb: "neighbors ?G1 0 = [1, 2, 3]"
    by (simp add: neighbors_def)
  have links: "?links = concat (map (\<lambda>edgefrom. map (\<lambda>i. (edgefrom, i))
                   (which_betweengroup_nodes_to_connect 2)) [0..2 - 1])"
    by (simp add: which_betweengroup_nodes_to_connect_def py_prefix_def upto_0_1)
  have inner: "\<forall>v. has_edge ?G 0 v \<longrightarrow> v < 2"
    by (simp add: has_edge_def)
  have draws: "length ?rs = length ?links" "\<forall>r \<in> set ?rs. 0 \<le> r"
    by simp_all
  have "length (which_betweengroup_nodes_to_connect 2) = nat (min 2 9) \<and>
    (\<exists>G'. connect_links (2 * 2) 0 [0, 1] [2, 3] ?links ?G ?rs [] = Inr (G', [], []) \<and>
          card {v \<in> set (neighbors G' 0). 2 \<le> v} = nat (min 2 9) \<and>
          (\<forall>v \<in> set (neighbors G' 0). 2 \<le> v \<longrightarrow> v < 2 * 2))"
    by (rule between_group_links[where k_out = 2 and g = 2 and e = 0 and p = 0, OF _ _ _ _ _ inner links draws])
       simp_all
  then obtain G' where len: "length (which_betweengroup_nodes_to_connect 2) = 2"
    and G': "connect_links 4 0 [0, 1] [2, 3] ?links ?G ?rs [] = Inr (G', [], [])"
    and card: "card {v \<in> set (neighbors G' 0). 2 \<le> v} = 2"
    by auto
  from G' run have "G' = ?G1" by simp
  with card have "card {v \<in> set (neighbors ?G1 0). 2 \<le> v} = 2" by simp
  with run len nb show ?thesis by blast
qed

text \<open>
  C10 as stated fails for a small group: with \<open>n = 4\<close> and \<open>k_out = 3\<close> node 0 gets
  the endpoints 2, 3, 3 and so two neighbours in group 2, not \<open>min(3, 9) = 3\<close>.
\<close>

theorem between_group_links_small_group:
  "min (3::int) 9 = 3 \<and>
   map (edgeto_of 4 2 0) (which_betweengroup_nodes_to_connect 3) = [2, 3, 3] \<and>
   connect_links 4 0 [0, 1] [2, 3] (map (\<lambda>i. (0, i)) (which_betweengroup_nodes_to_connect 3))
      \<lparr>nodes = [0, 1, 2, 3], edges = [(0, 1), (2, 3)]\<rparr> [1/2, 1/2, 1/2] []
     = Inr (\<lparr>nodes = [0, 1, 2, 3], edges = [(0, 1), (2, 3), (0, 2), (0, 3)]\<rparr>, [], []) \<and>
   neighbors \<lparr>nodes = [0, 1, 2, 3], edges = [(0, 1), (2, 3), (0, 2), (0, 3)]\<rparr> 0 = [1, 2, 3]"
  by (simp add: which_betweengroup_nodes_to_connect_def py_prefix_def edgeto_of_def connect_link_def
      add_edge_def add_node_def has_edge_def neighbors_def Let_def)

section \<open>Properties of the model\<close>

subsection \<open>Vectors and matrices\<close>

lemma np_dot_sum: "length xs = length ys \<Longrightarrow> np_dot xs ys = (\<Sum>j = 0..<length xs. xs ! j * ys ! j)"
  by (simp add: np_dot_def sum_list_sum_nth)

lemma np_diag_ones_nth:
  "i < n \<Longrightarrow> j < n \<Longrightarrow> np_diag_ones n k ! i ! j = (if int j - int i = k then 1 else 0)"
  by (simp add: np_diag_ones_def)

lemma np_diag_ones_length [simp]: "length (np_diag_ones n k) = n"
  by (simp add: np_diag_ones_def)

lemma np_diag_ones_row_length [simp]: "i < n \<Longrightarrow> length (np_diag_ones n k ! i) = n"
  by (simp add: np_diag_ones_def)

lemma identity_row_dot:
  assumes "i < n" "length v = n"
  shows "np_dot (np_diag_ones n 0 ! i) v = v ! i"
proof -
  have "np_dot (np_diag_ones n 0 ! i) v = (\<Sum>j = 0..<n. np_diag_ones n 0 ! i ! j * v ! j)"
    using assms by (simp add: np_dot_sum)
  also have "\<dots> = (\<Sum>j = 0..<n. if j = i then v ! j else 0)"
    using assms by (intro sum.cong) (auto simp: np_diag_ones_nth)
  also have "\<dots> = v ! i" using assms by simp
  finally show ?thesis .
qed

lemma matvec_identity: "length v = n \<Longrightarrow> matvec (np_diag_ones n 0) v = v"
  by (rule nth_equalityI) (simp_all add: matvec_def identity_row_dot)

lemma mat_heat_equation_0: "mat_heat_equation 0 d = np_diag_ones n_beliefs 0"
  apply (rule nth_equalityI)
   apply (simp add: mat_heat_equation_def mat_add_def mat_scale_def)
  apply (rule nth_equalityI)
   apply (simp_all add: mat_heat_equation_def mat_add_def mat_scale_def np_diag_ones_def)
  done

lemma mat_mul_identity_left:
  assumes "length M = n" "list_all (\<lambda>row. length row = n) M"
  shows "mat_mul (np_diag_ones n 0) M = M"
proof (rule nth_equalityI)
  show "length (mat_mul (np_diag_ones n 0) M) = length M" using assms by (simp add: mat_mul_def)
next
  fix i assume "i < length (mat_mul (np_diag_ones n 0) M)"
  then have i: "i < n" by (simp add: mat_mul_def)
  have rowlen: "length (M ! i) = n" using assms i by (simp add: list_all_length)
  show "mat_mul (np_diag_ones n 0) M ! i = M ! i"
  proof (rule nth_equalityI)
    show "length (mat_mul (np_diag_ones n 0) M ! i) = length (M ! i)"
      using i assms rowlen by (simp add: mat_mul_def)
  next
    fix j assume "j < length (mat_mul (np_diag_ones n 0) M ! i)"
    then have j: "j < n" using i assms by (simp add: mat_mul_def)
    have "mat_mul (np_diag_ones n 0) M ! i ! j = np_dot (np_diag_ones n 0 ! i) (map (\<lambda>r. r ! j) M)"
      using i j assms by (simp add: mat_mul_def)
    also have "\<dots> = map (\<lambda>r. r ! j) M ! i" using i assms by (intro identity_row_dot) simp_all
    also have "\<dots> = M ! i ! j" using i assms by simp
    finally show "mat_mul (np_diag_ones n 0) M ! i ! j = M ! i ! j" .
  qed
qed

lemma inverse_of_identity: "inverse_of (np_diag_ones n 0) M \<Longrightarrow> M = np_diag_ones n 0"
  unfolding inverse_of_def using mat_mul_identity_left[of M n] by simp

lemma normalise_id: "np_sum p * d = 1 \<Longrightarrow> normalise d p = p"
  by (simp add: normalise_def)

lemma diffusion_identity:
  assumes "mat_heat_equ_inv m = np_diag_ones n 0" "length (op self) = n" "np_sum (op self) * db m = 1"
  shows "update_opinion_in_non_interaction m self =
      self\<lparr>op := op self, mean_op := mean_of (belief_space m) (op self), sig := sig_of (belief_space m) (op self)\<rparr>"
  using assms by (simp add: update_opinion_in_non_interaction_def matvec_identity normalise_id Let_def)

lemma observe_float: "std_mean_ops m = PyFloat x \<Longrightarrow> observe m = Inl TypeError"
  by (simp add: observe_def Let_def)

lemma update_agents_frame: "update_agents m d = Inr m' \<Longrightarrow> \<exists>s. m' = m\<lparr>schedule := s\<rparr>"
proof (induction d arbitrary: m)
  case Nil
  have "m = m\<lparr>schedule := schedule m\<rparr>" by simp
  with Nil show ?case by (metis Inr_inject update_agents.simps(1))
next
  case (Cons x d)
  obtain i u c where x: "x = (i, u, c)" by (cases x) auto
  from Cons.prems x obtain ag where 
    "update_agents (m\<lparr>schedule := (schedule m)[i := ag]\<rparr>) d = Inr m'"
    by (auto split: if_splits sum.splits)
  from Cons.IH[OF this] obtain s where "m' = m\<lparr>schedule := (schedule m)[i := ag], schedule := s\<rparr>" by blast
  then have "m' = m\<lparr>schedule := s\<rparr>" by simp
  then show ?case by blast
qed

lemma step_result:
  assumes "step m d = Inr m'"
  shows "\<exists>s. update_agents m d = Inr (m\<lparr>schedule := s\<rparr>) \<and> Suc (time m) \<notin> set (track_times m) \<and>
     m' = m\<lparr>schedule := s, time := Suc (time m), std_mean_ops := PyFloat (np_std (map mean_op s))\<rparr>"
proof -
  from assms obtain m1 where u: "update_agents m d = Inr m1"
    by (auto simp: step_def split: if_splits sum.splits)
  from update_agents_frame[OF u] obtain s where m1: "m1 = m\<lparr>schedule := s\<rparr>" by blast
  from assms u have "Suc (time m) \<notin> set (track_times m)" unfolding m1
    by (auto simp: step_def Let_def observe_float split: if_splits sum.splits)
  moreover from assms u have "m' = m\<lparr>schedule := s, time := Suc (time m), std_mean_ops := PyFloat (np_std (map mean_op s))\<rparr>"
    unfolding m1 by (auto simp: step_def Let_def observe_float split: if_splits sum.splits)
  ultimately show ?thesis using u m1 by blast
qed

lemma step_checkpoint_raises:
  "Suc (time m) \<in> set (track_times m) \<Longrightarrow> step m draws \<noteq> Inr m'"
  using step_result[of m draws m'] by blast

subsection \<open>The observation\<close>

lemma observe_collect_data: "observe (collect_data m) = Inl TypeError"
  by (simp add: observe_float collect_data_def Let_def)

text \<open>
  C1 fails on the code: \<open>observe\<close> assigns an item of \<open>self.std_mean_ops\<close>, which is the float
  that \<open>__init__\<close> and \<open>step\<close> have stored there, so it raises whenever it is called, and
  \<open>__init__\<close>, which calls it, returns no model for any configuration.
\<close>

theorem observe_raises:
  "observe (collect_data m) = Inl TypeError \<and>
   OpinionModel_init nx_watts_strogatz_graph py_seeded np_seeded minv rs
     n social_id_groups a_in a_out k p_rewire k_in k_out sig_op_0 comm_f kap delta_0 seed
     reporter tts \<noteq> Inr m'"
  by (auto simp: OpinionModel_init_def observe_collect_data Let_def split: sum.splits)

subsection \<open>The interaction\<close>

lemma update_opinion_in_interaction_eq:
  "choice (nbs self) c < length (schedule m) \<Longrightarrow>
   update_opinion_in_interaction m self c =
     (let post0 = unnormalised_posterior m self (schedule m ! choice (nbs self) c);
          new_op = normalise (db m) (if np_sum post0 < float_epsilon then op self else post0)
      in Inr (self\<lparr>op := new_op, mean_op := mean_of (belief_space m) new_op,
                   sig := sig_of (belief_space m) new_op\<rparr>))"
  by (simp add: update_opinion_in_interaction_def unnormalised_posterior_def perceived_message_def
      Let_def)

lemma sum_list_zero: "\<forall>x \<in> set xs. x = (0::real) \<Longrightarrow> sum_list xs = 0"
  by (induction xs) auto

lemma perceived_message_transparent:
  assumes "alpha_in self = 1" "alpha_out self = 1"
  shows "perceived_message m self speaker = map2 (\<lambda>x y. x) (op speaker) (uniform m)"
  using assms by (auto simp: perceived_message_def intro!: nth_equalityI)

lemma disjoint_posterior_zero:
  assumes "alpha_in self = 1" "alpha_out self = 1"
    and "\<forall>(x, y) \<in> set (zip (op self) (op speaker)). x * y = 0"
  shows "np_sum (unnormalised_posterior m self speaker) = 0"
proof -
  have "\<forall>x \<in> set (unnormalised_posterior m self speaker). x = 0"
  proof
    fix x assume "x \<in> set (unnormalised_posterior m self speaker)"
    then obtain k where k: "k < length (op self)" "k < length (op speaker)" "k < length (uniform m)"
      and x: "x = op self ! k * op speaker ! k"
      unfolding unnormalised_posterior_def perceived_message_transparent[OF assms(1,2)]
      by (auto simp: in_set_conv_nth)
    from k have "(op self ! k, op speaker ! k) \<in> set (zip (op self) (op speaker))"
      by (auto simp: in_set_zip)
    with assms(3) have "op self ! k * op speaker ! k = 0" by blast
    with x show "x = 0" by simp
  qed
  then show ?thesis unfolding np_sum_def by (rule sum_list_zero)
qed

lemma float_epsilon_pos: "0 < float_epsilon"
  by (simp add: float_epsilon_def)

text \<open>
  C4. An agent whose density integrates to 1 and whose speaker is an agent of the schedule
  keeps its density when the posterior has a total mass below the tolerance, and the
  update returns; this is the case for \<open>alpha_in = alpha_out = 1\<close> and densities with
  disjoint supports.
\<close>

theorem degenerate_posterior_keeps_density:
  assumes "np_sum (op self) * db m = 1"
    and "choice (nbs self) c < length (schedule m)"
    and "np_sum (unnormalised_posterior m self (schedule m ! choice (nbs self) c)) < float_epsilon
         \<or> (alpha_in self = 1 \<and> alpha_out self = 1 \<and>
            (\<forall>(x, y) \<in> set (zip (op self) (op (schedule m ! choice (nbs self) c))). x * y = 0))"
  shows "\<exists>a. update_opinion_in_interaction m self c = Inr a \<and> op a = op self"
proof -
  from assms(3)
  have "np_sum (unnormalised_posterior m self (schedule m ! choice (nbs self) c)) < float_epsilon"
    using disjoint_posterior_zero[of self "schedule m ! choice (nbs self) c" m] float_epsilon_pos
    by auto
  then show ?thesis
    using assms(1,2) by (simp add: update_opinion_in_interaction_eq normalise_id Let_def)
qed

subsection \<open>The example states\<close>

lemma init_db_val: "init_db = 1 / 100"
  by (simp add: init_db_def belief_space_bounds_def n_beliefs_def last_map hd_map)

lemma sum_list_single:
  assumes "k < n"
  shows "sum_list ((replicate n (0::real))[k := v]) = v"
proof -
  have "sum_list ((replicate n (0::real))[k := v]) = (\<Sum>i = 0..<n. (replicate n 0)[k := v] ! i)"
    by (simp add: sum_list_sum_nth)
  also have "\<dots> = (\<Sum>i = 0..<n. if i = k then v else 0)"
    by (intro sum.cong) (auto simp: nth_list_update)
  also have "\<dots> = v" using assms by simp
  finally show ?thesis .
qed

lemma length_point_mass [simp]: "length (point_mass k) = n_beliefs"
  by (simp add: point_mass_def)

lemma point_mass_nth: "i < n_beliefs \<Longrightarrow> point_mass k ! i = (if i = k then 1 / init_db else 0)"
  by (simp add: point_mass_def nth_list_update)

lemma np_sum_point_mass: "k < n_beliefs \<Longrightarrow> np_sum (point_mass k) * init_db = 1"
  by (simp add: np_sum_def point_mass_def sum_list_single init_db_val)

lemma point_masses_disjoint:
  "j \<noteq> k \<Longrightarrow> \<forall>(x, y) \<in> set (zip (point_mass j) (point_mass k)). x * y = 0"
  by (auto simp: in_set_zip point_mass_nth)

lemma example_state_fields [simp]:
  "schedule (example_state reporter tts ags) = ags"
  "db (example_state reporter tts ags) = init_db"
  "belief_space (example_state reporter tts ags) = init_belief_space"
  "uniform (example_state reporter tts ags) = init_uniform"
  "mat_heat_equ_inv (example_state reporter tts ags) = np_diag_ones n_beliefs 0"
  "model_kappa (example_state reporter tts ags) = 0"
  "n_agents (example_state reporter tts ags) = length ags"
  "agent_reporter (example_state reporter tts ags) = reporter"
  "track_times (example_state reporter tts ags) = tts"
  "sigma_threshold_consensus (example_state reporter tts ags) = 1 / 100"
  "time (example_state reporter tts ags) = 0"
  "consensus_time (example_state reporter tts ags) = None"
  "consensus_mean (example_state reporter tts ags) = None"
  by (simp_all add: example_state_def collect_data_def new_model_def Let_def)

lemma example_agent_fields [simp]:
  "op (example_agent i ns p) = p"
  "nbs (example_agent i ns p) = ns"
  "alpha_in (example_agent i ns p) = 1"
  "alpha_out (example_agent i ns p) = 1"
  "communication_frequency (example_agent i ns p) = 1 / 2"
  "social_identity (example_agent i ns p) = GroupId 0"
  "mean_op (example_agent i ns p) = mean_of init_belief_space p"
  "sig (example_agent i ns p) = sig_of init_belief_space p"
  by (simp_all add: example_agent_def Agent_def new_model_def)

theorem degenerate_posterior_keeps_density_witness:
  "np_sum (op (opposed_pair ! 0)) * db (example_state False [30] opposed_pair) = 1 \<and>
   choice (nbs (opposed_pair ! 0)) 0 < length (schedule (example_state False [30] opposed_pair)) \<and>
   alpha_in (opposed_pair ! 0) = 1 \<and> alpha_out (opposed_pair ! 0) = 1 \<and>
   (\<exists>a. update_opinion_in_interaction (example_state False [30] opposed_pair) (opposed_pair ! 0) 0
          = Inr a \<and> op a = point_mass 50)"
proof -
  let ?m = "example_state False [30] opposed_pair"
  let ?a = "opposed_pair ! 0"
  have h1: "np_sum (op ?a) * db ?m = 1"
    by (simp add: opposed_pair_def np_sum_point_mass n_beliefs_def)
  have h2: "choice (nbs ?a) 0 < length (schedule ?m)"
    by (simp add: opposed_pair_def choice_def)
  have h3: "alpha_in ?a = 1" "alpha_out ?a = 1"
    by (simp_all add: opposed_pair_def)
  have h4: "\<forall>(x, y) \<in> set (zip (op ?a) (op (schedule ?m ! choice (nbs ?a) 0))). x * y = 0"
    using point_masses_disjoint[of 50 150] by (simp add: opposed_pair_def choice_def)
  have "op ?a = point_mass 50" by (simp add: opposed_pair_def)
  with degenerate_posterior_keeps_density[OF h1 h2] h3 h4 h1 h2 show ?thesis by auto
qed

subsection \<open>Diffusion without diffusion constant\<close>

lemma agent_step_no_communication:
  "communication_frequency a = 0 \<Longrightarrow> 0 \<le> u \<Longrightarrow>
   agent_step m a u c = Inr (update_opinion_in_non_interaction m a)"
  by (simp add: agent_step_def)

lemma propagator_identity:
  "model_kappa m = 0 \<Longrightarrow> inverse_of (mat_heat_equation (model_kappa m) (db m)) (mat_heat_equ_inv m)
   \<Longrightarrow> mat_heat_equ_inv m = np_diag_ones n_beliefs 0"
  by (simp add: mat_heat_equation_0 inverse_of_identity)

lemma update_agents_keeps_density:
  assumes "length p = n_beliefs"
  shows "mat_heat_equ_inv m = np_diag_ones n_beliefs 0 \<Longrightarrow> np_sum p * db m = 1 \<Longrightarrow>
    \<forall>(j, u, c) \<in> set d. 0 \<le> u \<Longrightarrow>
    i < length (schedule m) \<Longrightarrow> op (schedule m ! i) = p \<Longrightarrow>
    communication_frequency (schedule m ! i) = 0 \<Longrightarrow>
    update_agents m d = Inr m' \<Longrightarrow>
    i < length (schedule m') \<and> op (schedule m' ! i) = p \<and>
    communication_frequency (schedule m' ! i) = 0"
proof (induction d arbitrary: m)
  case Nil
  then show ?case by simp
next
  case (Cons x d)
  obtain j u c where x: "x = (j, u, c)" by (cases x) auto
  from Cons.prems(7) x obtain ag where j: "j < length (schedule m)"
    and ag: "agent_step m (schedule m ! j) u c = Inr ag"
    and rest: "update_agents (m\<lparr>schedule := (schedule m)[j := ag]\<rparr>) d = Inr m'"
    by (auto split: if_splits sum.splits)
  let ?m1 = "m\<lparr>schedule := (schedule m)[j := ag]\<rparr>"
  have keep: "op (schedule ?m1 ! i) = p \<and> communication_frequency (schedule ?m1 ! i) = 0"
  proof (cases "j = i")
    case True
    from Cons.prems(3) x have "0 \<le> u" by simp
    with ag True Cons.prems(6) have "ag = update_opinion_in_non_interaction m (schedule m ! i)"
      by (simp add: agent_step_no_communication)
    with diffusion_identity[OF Cons.prems(1), of "schedule m ! i"] assms Cons.prems(2,4,5,6) True
    show ?thesis by simp
  next
    case False
    with Cons.prems(5,6) show ?thesis by simp
  qed
  show ?case
    by (rule Cons.IH[OF _ _ _ _ _ _ rest]) (use Cons.prems x keep in auto)
qed

lemma step_keeps_density:
  assumes "length p = n_beliefs" "mat_heat_equ_inv m = np_diag_ones n_beliefs 0"
    "np_sum p * db m = 1" "\<forall>(j, u, c) \<in> set d. 0 \<le> u"
    "i < length (schedule m)" "op (schedule m ! i) = p"
    "communication_frequency (schedule m ! i) = 0"
    "step m d = Inr m'"
  shows "i < length (schedule m') \<and> op (schedule m' ! i) = p \<and>
    communication_frequency (schedule m' ! i) = 0 \<and>
    mat_heat_equ_inv m' = mat_heat_equ_inv m \<and> db m' = db m"
proof -
  from step_result[OF assms(8)] obtain s where
    u: "update_agents m d = Inr (m\<lparr>schedule := s\<rparr>)" and
    m': "m' = m\<lparr>schedule := s, time := Suc (time m), std_mean_ops := PyFloat (np_std (map mean_op s))\<rparr>"
    by blast
  from update_agents_keeps_density[OF assms(1-7) u] m' show ?thesis by simp
qed

lemma simulation_loop_keeps_density:
  assumes "length p = n_beliefs" "\<forall>t. \<forall>(j, u, c) \<in> set (draws t). 0 \<le> u"
  shows "mat_heat_equ_inv m = np_diag_ones n_beliefs 0 \<Longrightarrow> np_sum p * db m = 1 \<Longrightarrow>
    i < length (schedule m) \<Longrightarrow> op (schedule m ! i) = p \<Longrightarrow>
    communication_frequency (schedule m ! i) = 0 \<Longrightarrow>
    simulation_loop draws ts m tc = Inr (m', tc') \<Longrightarrow>
    i < length (schedule m') \<and> op (schedule m' ! i) = p"
proof (induction ts arbitrary: m tc)
  case Nil
  then show ?case by simp
next
  case (Cons t ts)
  from Cons.prems(6) obtain m1 where st: "step m (draws t) = Inr m1"
    by (auto split: sum.splits)
  from assms(2) have d: "\<forall>(j, u, c) \<in> set (draws t). 0 \<le> u" by blast
  note k = step_keeps_density[OF assms(1) Cons.prems(1,2) d Cons.prems(3,4,5) st]
  from step_result[OF st] obtain x where x: "std_mean_ops m1 = PyFloat x" by auto
  define tc1 where "tc1 = (if x < sigma_threshold_consensus m1 then tc @ [t] else tc)"
  define m2 where "m2 = m1\<lparr>consensus_time := Some (hd tc1),
      consensus_mean := Some (np_mean (map mean_op (schedule m1)))\<rparr>"
  from Cons.prems(6) st x consider
      (stop) "m' = m2" 
    | (go2) "simulation_loop draws ts m2 tc1 = Inr (m', tc')"
    | (go1) "simulation_loop draws ts m1 tc1 = Inr (m', tc')"
    by (auto simp: Let_def tc1_def m2_def split: if_splits)
  then show ?case
  proof cases
    case stop
    with k show ?thesis by (simp add: m2_def)
  next
    case go2
    show ?thesis
      by (rule Cons.IH[OF _ _ _ _ _ go2]) (use k Cons.prems in \<open>auto simp: m2_def\<close>)
  next
    case go1
    show ?thesis
      by (rule Cons.IH[OF _ _ _ _ _ go1]) (use k Cons.prems in auto)
  qed
qed

text \<open>
  C5. With \<open>kappa = 0\<close> the inverse of the matrix of the heat equation is the identity,
  an agent with \<open>communication_frequency = 0\<close> takes the diffusion branch at every
  tick, and its belief density, which integrates to 1, is after any ticks of the
  simulation the density it started with.
\<close>

theorem diffusion_only_keeps_density:
  assumes "model_kappa m = 0"
    and "inverse_of (mat_heat_equation (model_kappa m) (db m)) (mat_heat_equ_inv m)"
    and "i < length (schedule m)"
    and "communication_frequency (schedule m ! i) = 0"
    and "length (op (schedule m ! i)) = n_beliefs"
    and "np_sum (op (schedule m ! i)) * db m = 1"
    and "\<forall>t. \<forall>(j, u, c) \<in> set (draws t). 0 \<le> u"
    and "simulation_loop draws ts m tc = Inr (m', tc')"
  shows "op (schedule m' ! i) = op (schedule m ! i)"
  using simulation_loop_keeps_density[OF assms(5,7) propagator_identity[OF assms(1,2)]
      assms(6,3) refl assms(4,8)]
  by simp

subsection \<open>Ticks in which every agent diffuses\<close>

lemma settled_frame [simp]:
  "settled (m\<lparr>time := t\<rparr>) a = settled m a"
  "settled (m\<lparr>std_mean_ops := x\<rparr>) a = settled m a"
  "settled (m\<lparr>consensus_time := ct\<rparr>) a = settled m a"
  "settled (m\<lparr>consensus_mean := cm\<rparr>) a = settled m a"
  by (simp_all add: settled_def)

lemma settled_diffusion:
  "mat_heat_equ_inv m = np_diag_ones n_beliefs 0 \<Longrightarrow> settled m a \<Longrightarrow>
   update_opinion_in_non_interaction m a = a"
  by (simp add: settled_def diffusion_identity)

lemma update_agents_quiet:
  assumes "mat_heat_equ_inv m = np_diag_ones n_beliefs 0"
    and "\<forall>a \<in> set (schedule m). settled m a"
  shows "\<forall>(j, u, c) \<in> set d. j < length (schedule m) \<and> communication_frequency (schedule m ! j) \<le> u
    \<Longrightarrow> update_agents m d = Inr m"
proof (induction d)
  case Nil
  then show ?case by simp
next
  case (Cons x d)
  obtain j u c where x: "x = (j, u, c)" by (cases x) auto
  with Cons.prems have j: "j < length (schedule m)" "communication_frequency (schedule m ! j) \<le> u"
    by auto
  with assms have "agent_step m (schedule m ! j) u c = Inr (schedule m ! j)"
    by (simp add: agent_step_def settled_diffusion)
  with j x Cons show ?case by simp
qed

lemma step_quiet:
  assumes "mat_heat_equ_inv m = np_diag_ones n_beliefs 0"
    and "\<forall>a \<in> set (schedule m). settled m a"
    and "\<forall>(j, u, c) \<in> set d. j < length (schedule m) \<and> communication_frequency (schedule m ! j) \<le> u"
    and "n_agents m \<le> length (schedule m)"
    and "Suc (time m) \<notin> set (track_times m)"
  shows "step m d = Inr (m\<lparr>time := Suc (time m),
                          std_mean_ops := PyFloat (np_std (map mean_op (schedule m)))\<rparr>)"
  using assms(4,5) update_agents_quiet[OF assms(1,2,3)] by (simp add: step_def Let_def)

lemma idle_agent_settled: "settled (example_state reporter tts ags) idle_agent"
  by (simp add: settled_def idle_agent_def np_sum_point_mass n_beliefs_def)

lemma identity_inverse_of_identity: "inverse_of (np_diag_ones n 0) (np_diag_ones n 0)"
proof -
  have rows: "list_all (\<lambda>row. length row = n) (np_diag_ones n 0)"
    by (simp add: list_all_length)
  with mat_mul_identity_left[of "np_diag_ones n 0" n] show ?thesis
    by (simp add: inverse_of_def)
qed

lemma np_std_single: "np_std [x] = 0"
  by (simp add: np_std_def np_mean_def)

theorem diffusion_only_keeps_density_witness:
  "model_kappa (example_state True [30] [idle_agent]) = 0 \<and>
   communication_frequency (schedule (example_state True [30] [idle_agent]) ! 0) = 0 \<and>
   simulation_loop (\<lambda>t. [(0, 0, 0)]) [0, 1, 2] (example_state True [30] [idle_agent]) []
     = Inr ((example_state True [30] [idle_agent])\<lparr>time := 3\<rparr>, [0, 1, 2]) \<and>
   op (schedule ((example_state True [30] [idle_agent])\<lparr>time := 3\<rparr>) ! 0) = point_mass 100"
proof -
  let ?m = "example_state True [30] [idle_agent]"
  let ?d = "\<lambda>t::nat. [(0::nat, 0::real, 0::nat)]"
  have std: "std_mean_ops ?m = PyFloat 0"
    by (simp add: example_state_def collect_data_def new_model_def np_std_single Let_def)
  have st: "\<And>t. t < 29 \<Longrightarrow> step (?m\<lparr>time := t\<rparr>) [(0, 0, 0)] = Inr (?m\<lparr>time := Suc t\<rparr>)"
  proof -
    fix t :: nat assume t: "t < 29"
    have "step (?m\<lparr>time := t\<rparr>) [(0, 0, 0)] =
        Inr (?m\<lparr>time := t, time := Suc (time (?m\<lparr>time := t\<rparr>)),
             std_mean_ops := PyFloat (np_std (map mean_op (schedule (?m\<lparr>time := t\<rparr>))))\<rparr>)"
      by (rule step_quiet) (use t in \<open>simp_all add: idle_agent_settled, simp add: idle_agent_def\<close>)
    also have "\<dots> = Inr (?m\<lparr>time := Suc t\<rparr>)"
      using std by (simp add: np_std_single)
    finally show "step (?m\<lparr>time := t\<rparr>) [(0, 0, 0)] = Inr (?m\<lparr>time := Suc t\<rparr>)" .
  qed
  have m0: "?m = ?m\<lparr>time := 0\<rparr>" by simp
  have run: "simulation_loop ?d [0, 1, 2] ?m [] = Inr (?m\<lparr>time := 3\<rparr>, [0, 1, 2])"
    apply (subst m0)
    apply (simp add: st std Let_def del: example_state_fields)
    apply (simp add: numeral_3_eq_3)
    done
  have h1: "model_kappa ?m = 0" by simp
  have h2: "inverse_of (mat_heat_equation (model_kappa ?m) (db ?m)) (mat_heat_equ_inv ?m)"
    by (simp add: mat_heat_equation_0 identity_inverse_of_identity)
  have h3: "0 < length (schedule ?m)" by simp
  have h4: "communication_frequency (schedule ?m ! 0) = 0" by (simp add: idle_agent_def)
  have h5: "length (op (schedule ?m ! 0)) = n_beliefs" by (simp add: idle_agent_def)
  have h6: "np_sum (op (schedule ?m ! 0)) * db ?m = 1"
    by (simp add: idle_agent_def np_sum_point_mass n_beliefs_def)
  have h7: "\<forall>t. \<forall>(j, u, c) \<in> set (?d t). 0 \<le> u" by simp
  from diffusion_only_keeps_density[OF h1 h2 h3 h4 h5 h6 h7 run]
  have "op (schedule (?m\<lparr>time := 3\<rparr>) ! 0) = point_mass 100" by (simp add: idle_agent_def)
  with h1 h4 run show ?thesis by blast
qed

subsection \<open>The consensus bookkeeping\<close>

lemma agent_step_consensus_frame:
  "agent_step (m\<lparr>consensus_time := ct, consensus_mean := cm\<rparr>) a u c = agent_step m a u c"
  by (simp add: agent_step_def update_opinion_in_interaction_def
      update_opinion_in_non_interaction_def Let_def)

lemma consensus_schedule_commute:
  "m\<lparr>consensus_time := ct, consensus_mean := cm, schedule := s\<rparr> =
   m\<lparr>schedule := s, consensus_time := ct, consensus_mean := cm\<rparr>"
  by (cases m) simp

lemma update_agents_consensus_frame:
  "update_agents (m\<lparr>consensus_time := ct, consensus_mean := cm\<rparr>) d =
     (case update_agents m d of
        Inl e \<Rightarrow> Inl e
      | Inr m1 \<Rightarrow> Inr (m1\<lparr>consensus_time := ct, consensus_mean := cm\<rparr>))"
proof (induction d arbitrary: m)
  case Nil
  then show ?case by simp
next
  case (Cons x d)
  obtain j u c where x: "x = (j, u, c)" by (cases x) auto
  show ?case
  proof (cases "j \<ge> length (schedule m)")
    case True
    with x show ?thesis by simp
  next
    case False
    show ?thesis
    proof (cases "agent_step m (schedule m ! j) u c")
      case (Inl e)
      with False x show ?thesis by (simp add: agent_step_consensus_frame)
    next
      case (Inr ag)
      have "update_agents (m\<lparr>consensus_time := ct, consensus_mean := cm\<rparr>) (x # d) =
          update_agents (m\<lparr>schedule := (schedule m)[j := ag]\<rparr>
                          \<lparr>consensus_time := ct, consensus_mean := cm\<rparr>) d"
        using False x Inr by (simp add: agent_step_consensus_frame consensus_schedule_commute)
      also have "\<dots> = (case update_agents (m\<lparr>schedule := (schedule m)[j := ag]\<rparr>) d of
            Inl e \<Rightarrow> Inl e
          | Inr m1 \<Rightarrow> Inr (m1\<lparr>consensus_time := ct, consensus_mean := cm\<rparr>))"
        by (rule Cons.IH)
      also have "\<dots> = (case update_agents m (x # d) of
            Inl e \<Rightarrow> Inl e
          | Inr m1 \<Rightarrow> Inr (m1\<lparr>consensus_time := ct, consensus_mean := cm\<rparr>))"
        using False x Inr by simp
      finally show ?thesis .
    qed
  qed
qed

lemma step_consensus_frame:
  assumes "step (m\<lparr>consensus_time := ct, consensus_mean := cm\<rparr>) d = Inr m1"
  shows "\<exists>r1. step m d = Inr r1 \<and> m1 = r1\<lparr>consensus_time := ct, consensus_mean := cm\<rparr>"
proof -
  let ?mc = "m\<lparr>consensus_time := ct, consensus_mean := cm\<rparr>"
  from step_result[OF assms] obtain s where
    u: "update_agents ?mc d = Inr (?mc\<lparr>schedule := s\<rparr>)" and
    cp: "Suc (time m) \<notin> set (track_times m)" and
    m1: "m1 = ?mc\<lparr>schedule := s, time := Suc (time ?mc),
                  std_mean_ops := PyFloat (np_std (map mean_op s))\<rparr>"
    by auto
  from assms have n: "\<not> length (schedule m) < n_agents m"
    by (auto simp: step_def split: if_splits)
  from u obtain r where r: "update_agents m d = Inr r"
    by (cases "update_agents m d") (auto simp: update_agents_consensus_frame)
  from update_agents_frame[OF r] obtain s' where r': "r = m\<lparr>schedule := s'\<rparr>" by blast
  from u r r' have "s' = s"
    by (auto simp: update_agents_consensus_frame dest: arg_cong[where f = schedule])
  with r r' cp n have "step m d = Inr (m\<lparr>schedule := s, time := Suc (time m),
                  std_mean_ops := PyFloat (np_std (map mean_op s))\<rparr>)"
    by (simp add: step_def Let_def)
  with m1 show ?thesis by simp
qed

lemma run_ticks_snoc:
  "run_ticks draws (ts @ [t]) m =
     (case run_ticks draws ts m of Inl e \<Rightarrow> Inl e | Inr r \<Rightarrow> step r (draws t))"
  by (induction ts arbitrary: m) (auto split: sum.splits)

end
